theory Spec2Isabelle
  imports Main "HOL-Library.Sublist"
begin

section \<open>Data model of the language-service feature workers\<close>

text \<open>
  The development embeds \<^verbatim>\<open>packages/language-service/lib/utils/featureWorkers.ts\<close>.
  Types that the file only imports are kept as small as the code needs them: a URI is a
  string, a content snapshot is the text it holds, and the objects the file receives from
  its context (text documents, source maps, the document cache, the script registry) are
  records of the members the file calls.
\<close>

type_synonym uri = string
type_synonym snapshot = string

text \<open>A \<^verbatim>\<open>vscode.Position\<close>: zero-based line and character.\<close>

record Position =
  line :: nat
  character :: nat

text \<open>
  A \<^verbatim>\<open>TextDocument\<close>, with the members the file uses: its \<^verbatim>\<open>uri\<close>, and the two
  conversions \<^verbatim>\<open>offsetAt\<close> and \<^verbatim>\<open>positionAt\<close>; its \<^verbatim>\<open>languageId\<close> is kept as well. The
  conversions belong to the text-document library, which is not part of the file, and
  are taken as they come with the document.
\<close>

record TextDocument =
  uri :: uri
  doc_languageId :: string
  offsetAt :: "Position \<Rightarrow> nat"
  positionAt :: "nat \<Rightarrow> Position"

text \<open>
  A \<^verbatim>\<open>SourceMap<CodeInformation>\<close>, with the two point queries the file calls. Each answer
  is a pair of the mapped offset and the mapping it came from; the mapping is represented
  by its \<^verbatim>\<open>CodeInformation\<close> data \<open>'ci\<close>, which is all the filter looks at.
\<close>

record 'ci SourceMap =
  getSourceOffsets :: "nat \<Rightarrow> ('ci \<Rightarrow> bool) \<Rightarrow> (nat \<times> 'ci) list"
  getGeneratedOffsets :: "nat \<Rightarrow> ('ci \<Rightarrow> bool) \<Rightarrow> (nat \<times> 'ci) list"

text \<open>
  A \<^verbatim>\<open>VirtualCode\<close>: identity, language id, snapshot and the optional array
  \<^verbatim>\<open>embeddedCodes\<close> (\<open>None\<close> when the member is absent).
\<close>

datatype VirtualCode =
  VirtualCode (code_id: string) (code_languageId: string) (code_snapshot: snapshot)
    (embeddedCodes: "VirtualCode list option")

text \<open>
  A \<^verbatim>\<open>SourceScript<URI>\<close>. Of \<^verbatim>\<open>generated\<close> the file reads only \<^verbatim>\<open>generated.root\<close>, so the
  field holds the root when the script is generated and \<open>None\<close> otherwise.
\<close>

record SourceScript =
  script_id :: uri
  script_languageId :: string
  script_snapshot :: snapshot
  generated :: "VirtualCode option"

text \<open>
  A registered plugin is the pair \<^verbatim>\<open>[LanguageServicePlugin, LanguageServicePluginInstance]\<close>:
  the descriptor is represented by its \<^verbatim>\<open>name\<close>, the instance by its object identity.
\<close>

type_synonym plugin = "string \<times> nat"

text \<open>\<^verbatim>\<open>DocumentsAndMap = [sourceDocument, embeddedDocument, map]\<close>.\<close>

type_synonym 'ci DocumentsAndMap = "TextDocument \<times> TextDocument \<times> 'ci SourceMap"

text \<open>
  The \<^verbatim>\<open>LanguageServiceContext\<close>, with the members the file reads.
  \<^verbatim>\<open>disabledEmbeddedDocumentUris\<close> is looked up with \<^verbatim>\<open>.get\<close> and the answer is tested for
  truthiness, so it is a map from URIs to booleans; \<^verbatim>\<open>disabledServicePlugins\<close> is asked
  with \<^verbatim>\<open>.has\<close>, so it is a set of plugin instances.
\<close>

record 'ci LanguageServiceContext =
  scripts_get :: "uri \<rightharpoonup> SourceScript"
  maps_get :: "VirtualCode \<Rightarrow> SourceScript \<Rightarrow> 'ci SourceMap"
  documents_get :: "uri \<Rightarrow> string \<Rightarrow> snapshot \<Rightarrow> TextDocument"
  plugins :: "plugin list"
  disabledServicePlugins :: "nat set"
  disabledEmbeddedDocumentUris :: "uri \<rightharpoonup> bool"
  encodeEmbeddedDocumentUri :: "uri \<Rightarrow> string \<Rightarrow> uri"

section \<open>The embedding walker\<close>

text \<open>
  \<^verbatim>\<open>!context.disabledEmbeddedDocumentUris.get(u)\<close> is false exactly when the lookup
  answers \<^verbatim>\<open>true\<close>; an absent key answers \<^verbatim>\<open>undefined\<close>.
\<close>

definition isDisabledUri :: "'ci LanguageServiceContext \<Rightarrow> uri \<Rightarrow> bool" where
  "isDisabledUri context u =
     (case disabledEmbeddedDocumentUris context u of None \<Rightarrow> False | Some b \<Rightarrow> b)"

text \<open>The tuple that \<^verbatim>\<open>forEachEmbeddedDocument\<close> yields for the node \<open>current\<close>.\<close>

definition yieldedDocs ::
  "'ci LanguageServiceContext \<Rightarrow> SourceScript \<Rightarrow> VirtualCode \<Rightarrow> 'ci DocumentsAndMap" where
  "yieldedDocs context sourceScript current =
     (let embeddedDocumentUri =
            encodeEmbeddedDocumentUri context (script_id sourceScript) (code_id current)
      in (documents_get context (script_id sourceScript)
            (code_languageId current) (code_snapshot current),
          documents_get context embeddedDocumentUri
            (code_languageId current) (code_snapshot current),
          maps_get context current sourceScript))"

text \<open>
  The generator \<^verbatim>\<open>forEachEmbeddedDocument\<close>, as the list of the values it yields, in the
  order it yields them.
\<close>

fun forEachEmbeddedDocument ::
  "'ci LanguageServiceContext \<Rightarrow> SourceScript \<Rightarrow> VirtualCode \<Rightarrow> 'ci DocumentsAndMap list" where
  "forEachEmbeddedDocument context sourceScript (VirtualCode i l s codes) =
     (case codes of
        None \<Rightarrow> []
      | Some embedded \<Rightarrow> concat (map (forEachEmbeddedDocument context sourceScript) embedded))
     @ (if \<not> isDisabledUri context
              (encodeEmbeddedDocumentUri context (script_id sourceScript) i)
        then [yieldedDocs context sourceScript (VirtualCode i l s codes)]
        else [])"

text \<open>
  \<^verbatim>\<open>getEmbeddedFilesByLevel\<close>. The inner two loops build \<^verbatim>\<open>nextLevel\<close> from the last level
  computed so far; the outer \<^verbatim>\<open>while (true)\<close> appends levels until the array is longer than
  \<^verbatim>\<open>level\<close>. Reading \<^verbatim>\<open>embeddedFilesByLevel[level]\<close> at a negative index answers \<^verbatim>\<open>undefined\<close>,
  which is \<open>None\<close> here. The array starts with the level of the root alone and only
  grows, so its last element always exists.
\<close>

definition nextLevel ::
  "'ci LanguageServiceContext \<Rightarrow> uri \<Rightarrow> VirtualCode list \<Rightarrow> VirtualCode list" where
  "nextLevel context sourceFileUri files =
     concat (map (\<lambda>file.
        case embeddedCodes file of
          None \<Rightarrow> []
        | Some codes \<Rightarrow>
            filter (\<lambda>embedded. \<not> isDisabledUri context
                      (encodeEmbeddedDocumentUri context sourceFileUri (code_id embedded)))
                   codes) files)"

function getEmbeddedFilesByLevel_loop ::
  "'ci LanguageServiceContext \<Rightarrow> uri \<Rightarrow> int \<Rightarrow> VirtualCode list list
     \<Rightarrow> VirtualCode list option" where
  "getEmbeddedFilesByLevel_loop context sourceFileUri level embeddedFilesByLevel =
     (if int (length embeddedFilesByLevel) > level
      then (if 0 \<le> level then Some (embeddedFilesByLevel ! nat level) else None)
      else getEmbeddedFilesByLevel_loop context sourceFileUri level
             (embeddedFilesByLevel
                @ [nextLevel context sourceFileUri (last embeddedFilesByLevel)]))"
  by pat_completeness auto
termination
  by (relation "measure (\<lambda>(context, sourceFileUri, level, embeddedFilesByLevel).
                  nat (level + 1 - int (length embeddedFilesByLevel)))") auto

definition getEmbeddedFilesByLevel ::
  "'ci LanguageServiceContext \<Rightarrow> uri \<Rightarrow> VirtualCode \<Rightarrow> int \<Rightarrow> VirtualCode list option" where
  "getEmbeddedFilesByLevel context sourceFileUri rootFile level =
     getEmbeddedFilesByLevel_loop context sourceFileUri level ([rootFile] # [])"

section \<open>Projecting positions\<close>

text \<open>
  \<^verbatim>\<open>getSourcePositions\<close> and \<^verbatim>\<open>getGeneratedPositions\<close>, as the lists of the positions they
  yield. The parameter \<^verbatim>\<open>filter\<close> defaults to \<^verbatim>\<open>() => true\<close> when it is not passed.
\<close>

definition filterOrDefault :: "('ci \<Rightarrow> bool) option \<Rightarrow> 'ci \<Rightarrow> bool" where
  "filterOrDefault filter' = (case filter' of None \<Rightarrow> (\<lambda>_. True) | Some f \<Rightarrow> f)"

definition getSourcePositions ::
  "'ci DocumentsAndMap \<Rightarrow> Position \<Rightarrow> ('ci \<Rightarrow> bool) option \<Rightarrow> Position list" where
  "getSourcePositions docs position filter' =
     (case docs of (sourceDocument, embeddedDocument, map') \<Rightarrow>
        List.map (\<lambda>mapped. positionAt sourceDocument (fst mapped))
          (getSourceOffsets map' (offsetAt embeddedDocument position) (filterOrDefault filter')))"

definition getGeneratedPositions ::
  "'ci DocumentsAndMap \<Rightarrow> Position \<Rightarrow> ('ci \<Rightarrow> bool) option \<Rightarrow> Position list" where
  "getGeneratedPositions docs position filter' =
     (case docs of (sourceDocument, embeddedDocument, map') \<Rightarrow>
        List.map (\<lambda>mapped. positionAt embeddedDocument (fst mapped))
          (getGeneratedOffsets map' (offsetAt sourceDocument position) (filterOrDefault filter')))"

section \<open>The feature dispatcher\<close>

text \<open>
  Plugin results are JavaScript values, and the dispatcher tests them with \<^verbatim>\<open>!x\<close>. The
  values are modelled with the falsy ones written out; numbers are integers plus
  \<^verbatim>\<open>NaN\<close>, and every object (arrays included) is a reference.
\<close>

datatype jsvalue =
  JUndefined | JNull | JBool bool | JNumber int | JNaN | JString string | JObject nat

fun truthy :: "jsvalue \<Rightarrow> bool" where
  "truthy JUndefined = False"
| "truthy JNull = False"
| "truthy (JBool b) = b"
| "truthy (JNumber n) = (n \<noteq> 0)"
| "truthy JNaN = False"
| "truthy (JString s) = (s \<noteq> [])"
| "truthy (JObject r) = True"

text \<open>
  What calling the worker can do: return a value, throw, or return a thenable that is
  later fulfilled or rejected.
\<close>

type_synonym error = string

datatype outcome = Returns jsvalue | Throws error | Fulfills jsvalue | Rejects error

text \<open>
  The message passed to \<^verbatim>\<open>safeCall\<close> is a template over the plugin's name, its index and
  the document's URI; it is kept as these three parts.
\<close>

type_synonym errorMsg = "string \<times> nat \<times> uri"

text \<open>
  \<^verbatim>\<open>safeCall\<close>: \<^verbatim>\<open>return await cb()\<close> inside \<^verbatim>\<open>try\<close>; a throw and a rejection both reach the
  \<^verbatim>\<open>catch\<close>, which writes to the console and falls off the end of the function, so the
  call answers \<^verbatim>\<open>undefined\<close>. The second component is what was written to the console.
\<close>

definition safeCall ::
  "(unit \<Rightarrow> outcome) \<Rightarrow> errorMsg \<Rightarrow> jsvalue \<times> (errorMsg \<times> error) list" where
  "safeCall cb errorMsg =
     (case cb () of
        Returns v \<Rightarrow> (v, [])
      | Fulfills v \<Rightarrow> (v, [])
      | Throws err \<Rightarrow> (JUndefined, [(errorMsg, err)])
      | Rejects err \<Rightarrow> (JUndefined, [(errorMsg, err)]))"

text \<open>
  One call of the worker, by its arguments: the plugin, the document, the parameters and
  the optional \<^verbatim>\<open>DocumentsAndMap\<close>.
\<close>

type_synonym ('k, 'ci) invocation = "plugin \<times> TextDocument \<times> 'k \<times> 'ci DocumentsAndMap option"

type_synonym ('k, 'ci) worker =
  "plugin \<Rightarrow> TextDocument \<Rightarrow> 'k \<Rightarrow> 'ci DocumentsAndMap option \<Rightarrow> outcome"

type_synonym 'ci transformer = "jsvalue \<Rightarrow> 'ci DocumentsAndMap option \<Rightarrow> jsvalue"

text \<open>
  The state of one dispatch: the array \<^verbatim>\<open>results\<close>, and, to observe what the dispatcher
  did, the worker calls it made, the console output of \<^verbatim>\<open>safeCall\<close>, and the calls of
  \<^verbatim>\<open>transformResult\<close> it made, each in order.
\<close>

record ('k, 'ci) run =
  invoked :: "('k, 'ci) invocation list"
  warned :: "(errorMsg \<times> error) list"
  transformed :: "(jsvalue \<times> 'ci DocumentsAndMap option) list"
  results :: "jsvalue list"

definition emptyRun :: "('k, 'ci) run" where
  "emptyRun = \<lparr>invoked = [], warned = [], transformed = [], results = []\<rparr>"

text \<open>
  The body of the plugin loop of the generated path (lines 66 to 88), for one entry
  \<^verbatim>\<open>[pluginIndex, plugin]\<close> of \<^verbatim>\<open>Object.entries(context.plugins)\<close>.
\<close>

definition virtualPluginStep ::
  "'ci LanguageServiceContext \<Rightarrow> ('k, 'ci) worker \<Rightarrow> 'ci transformer
     \<Rightarrow> (jsvalue list \<Rightarrow> jsvalue) option \<Rightarrow> 'ci DocumentsAndMap \<Rightarrow> 'k
     \<Rightarrow> ('k, 'ci) run \<Rightarrow> nat \<times> plugin \<Rightarrow> ('k, 'ci) run" where
  "virtualPluginStep context worker transformResult combineResult docs mappedArg st entry =
     (case entry of (pluginIndex, plugin) \<Rightarrow>
        if snd plugin \<in> disabledServicePlugins context then st
        else if results st \<noteq> [] \<and> combineResult = None then st
        else
          (case safeCall (\<lambda>_. worker plugin (fst (snd docs)) mappedArg (Some docs))
                  (fst plugin, pluginIndex, uri (fst (snd docs))) of
             (rawResult, warnings) \<Rightarrow>
               let st1 = st\<lparr>invoked := invoked st @ [(plugin, fst (snd docs), mappedArg, Some docs)],
                           warned := warned st @ warnings\<rparr>
               in if \<not> truthy rawResult then st1
                  else
                    let mappedResult = transformResult rawResult (Some docs);
                        st2 = st1\<lparr>transformed := transformed st1 @ [(rawResult, Some docs)]\<rparr>
                    in if \<not> truthy mappedResult then st2
                       else st2\<lparr>results := results st2 @ [mappedResult]\<rparr>))"

text \<open>The loop over the parameter sets (lines 60 to 89) and over the documents (54 to 90).\<close>

definition virtualParamsStep ::
  "'ci LanguageServiceContext \<Rightarrow> ('k, 'ci) worker \<Rightarrow> 'ci transformer
     \<Rightarrow> (jsvalue list \<Rightarrow> jsvalue) option \<Rightarrow> 'ci DocumentsAndMap
     \<Rightarrow> ('k, 'ci) run \<Rightarrow> 'k \<Rightarrow> ('k, 'ci) run" where
  "virtualParamsStep context worker transformResult combineResult docs st mappedArg =
     (if results st \<noteq> [] \<and> combineResult = None then st
      else foldl (virtualPluginStep context worker transformResult combineResult docs mappedArg)
             st (enumerate 0 (plugins context)))"

definition virtualDocsStep ::
  "'ci LanguageServiceContext \<Rightarrow> ('ci DocumentsAndMap \<Rightarrow> 'k list) \<Rightarrow> ('k, 'ci) worker
     \<Rightarrow> 'ci transformer \<Rightarrow> (jsvalue list \<Rightarrow> jsvalue) option
     \<Rightarrow> ('k, 'ci) run \<Rightarrow> 'ci DocumentsAndMap \<Rightarrow> ('k, 'ci) run" where
  "virtualDocsStep context eachVirtualDocParams worker transformResult combineResult st docs =
     (if results st \<noteq> [] \<and> combineResult = None then st
      else foldl (virtualParamsStep context worker transformResult combineResult docs)
             st (eachVirtualDocParams docs))"

text \<open>
  The plugin loop of the non-generated path (lines 97 to 120); \<^verbatim>\<open>break\<close> ends the
  recursion.
\<close>

fun realPluginLoop ::
  "'ci LanguageServiceContext \<Rightarrow> ('k, 'ci) worker \<Rightarrow> 'ci transformer
     \<Rightarrow> (jsvalue list \<Rightarrow> jsvalue) option \<Rightarrow> TextDocument \<Rightarrow> 'k
     \<Rightarrow> ('k, 'ci) run \<Rightarrow> (nat \<times> plugin) list \<Rightarrow> ('k, 'ci) run" where
  "realPluginLoop context worker transformResult combineResult document params st [] = st"
| "realPluginLoop context worker transformResult combineResult document params st
     ((pluginIndex, plugin) # rest) =
     (if snd plugin \<in> disabledServicePlugins context
      then realPluginLoop context worker transformResult combineResult document params st rest
      else
        (case safeCall (\<lambda>_. worker plugin document params None)
                (fst plugin, pluginIndex, uri document) of
           (embeddedResult, warnings) \<Rightarrow>
             let st1 = st\<lparr>invoked := invoked st @ [(plugin, document, params, None)],
                         warned := warned st @ warnings\<rparr>
             in if \<not> truthy embeddedResult
                then realPluginLoop context worker transformResult combineResult document params
                       st1 rest
                else
                  let result = transformResult embeddedResult None;
                      st2 = st1\<lparr>transformed := transformed st1 @ [(embeddedResult, None)]\<rparr>
                  in if \<not> truthy result
                     then realPluginLoop context worker transformResult combineResult document
                            params st2 rest
                     else
                       let st3 = st2\<lparr>results := results st2 @ [result]\<rparr>
                       in if combineResult = None then st3
                          else realPluginLoop context worker transformResult combineResult
                                 document params st3 rest))"

text \<open>
  The part of \<^verbatim>\<open>languageFeatureWorker\<close> that fills \<^verbatim>\<open>results\<close> for a script that the
  registry knows (lines 50 to 121).
\<close>

definition collectResults ::
  "'ci LanguageServiceContext \<Rightarrow> uri \<Rightarrow> SourceScript \<Rightarrow> (unit \<Rightarrow> 'k)
     \<Rightarrow> ('ci DocumentsAndMap \<Rightarrow> 'k list) \<Rightarrow> ('k, 'ci) worker \<Rightarrow> 'ci transformer
     \<Rightarrow> (jsvalue list \<Rightarrow> jsvalue) option \<Rightarrow> ('k, 'ci) run" where
  "collectResults context u sourceScript getRealDocParams eachVirtualDocParams worker
       transformResult combineResult =
     (case generated sourceScript of
        Some root \<Rightarrow>
          foldl (virtualDocsStep context eachVirtualDocParams worker transformResult
                   combineResult)
            emptyRun (forEachEmbeddedDocument context sourceScript root)
      | None \<Rightarrow>
          let document = documents_get context u (script_languageId sourceScript)
                           (script_snapshot sourceScript);
              params = getRealDocParams ()
          in realPluginLoop context worker transformResult combineResult document params
               emptyRun (enumerate 0 (plugins context)))"

text \<open>
  \<^verbatim>\<open>languageFeatureWorker\<close>: the value the returned promise resolves to (\<^verbatim>\<open>undefined\<close> when
  the function returns nothing), together with the state of the dispatch.
\<close>

definition languageFeatureWorker ::
  "'ci LanguageServiceContext \<Rightarrow> uri \<Rightarrow> (unit \<Rightarrow> 'k)
     \<Rightarrow> ('ci DocumentsAndMap \<Rightarrow> 'k list) \<Rightarrow> ('k, 'ci) worker \<Rightarrow> 'ci transformer
     \<Rightarrow> (jsvalue list \<Rightarrow> jsvalue) option \<Rightarrow> jsvalue \<times> ('k, 'ci) run" where
  "languageFeatureWorker context u getRealDocParams eachVirtualDocParams worker
       transformResult combineResult =
     (case scripts_get context u of
        None \<Rightarrow> (JUndefined, emptyRun)
      | Some sourceScript \<Rightarrow>
          let st = collectResults context u sourceScript getRealDocParams
                     eachVirtualDocParams worker transformResult combineResult
          in if combineResult \<noteq> None \<and> length (results st) > 0
             then (the combineResult (results st), st)
             else if length (results st) > 0 then (results st ! 0, st)
             else (JUndefined, st))"

text \<open>
  \<^verbatim>\<open>documentFeatureWorker\<close>: there are no parameters (\<^verbatim>\<open>void 0\<close>, the unit value here), and
  the generator yields once when \<^verbatim>\<open>valid(map)\<close> holds.
\<close>

definition documentFeatureWorker ::
  "'ci LanguageServiceContext \<Rightarrow> uri \<Rightarrow> ('ci DocumentsAndMap \<Rightarrow> bool)
     \<Rightarrow> (plugin \<Rightarrow> TextDocument \<Rightarrow> outcome) \<Rightarrow> 'ci transformer
     \<Rightarrow> (jsvalue list \<Rightarrow> jsvalue) option \<Rightarrow> jsvalue \<times> (unit, 'ci) run" where
  "documentFeatureWorker context u valid worker transformResult combineResult =
     languageFeatureWorker context u (\<lambda>_. ())
       (\<lambda>map'. if valid map' then [()] else [])
       (\<lambda>plugin document params docs. worker plugin document)
       transformResult combineResult"

section \<open>Notions used to state the properties\<close>

text \<open>The children of a node, in their declared order; none when the member is absent.\<close>

definition children :: "VirtualCode \<Rightarrow> VirtualCode list" where
  "children current = (case embeddedCodes current of None \<Rightarrow> [] | Some codes \<Rightarrow> codes)"

text \<open>
  Post-order, in the words of the specification: for a node, first every descendant,
  children in their declared order, and the node itself only after all of them.
\<close>

fun postOrder :: "VirtualCode \<Rightarrow> VirtualCode list" where
  "postOrder (VirtualCode i l s codes) =
     concat (map postOrder (case codes of None \<Rightarrow> [] | Some embedded \<Rightarrow> embedded))
     @ [VirtualCode i l s codes]"

text \<open>A node is enabled when its encoded identity is not disabled.\<close>

definition isEnabledCode :: "'ci LanguageServiceContext \<Rightarrow> uri \<Rightarrow> VirtualCode \<Rightarrow> bool" where
  "isEnabledCode context sourceUri current =
     (\<not> isDisabledUri context (encodeEmbeddedDocumentUri context sourceUri (code_id current)))"

text \<open>
  The level-indexed view in the words of the specification: level 0 is the root alone,
  and each further level is computed from the one before it.
\<close>

fun levelOf :: "'ci LanguageServiceContext \<Rightarrow> uri \<Rightarrow> VirtualCode \<Rightarrow> nat \<Rightarrow> VirtualCode list" where
  "levelOf context sourceFileUri rootFile 0 = [rootFile]"
| "levelOf context sourceFileUri rootFile (Suc k) =
     concat (map (\<lambda>node. filter (isEnabledCode context sourceFileUri) (children node))
               (levelOf context sourceFileUri rootFile k))"

text \<open>
  What a worker call answers once awaited inside \<^verbatim>\<open>safeCall\<close>, and whether the dispatcher
  accepts the call: the answer is truthy and so is its projection.
\<close>

definition rawResult :: "('k, 'ci) worker \<Rightarrow> ('k, 'ci) invocation \<Rightarrow> jsvalue" where
  "rawResult worker call =
     (case call of (plugin, document, params, docs) \<Rightarrow>
        fst (safeCall (\<lambda>_. worker plugin document params docs) (fst plugin, 0, uri document)))"

definition projection ::
  "('k, 'ci) worker \<Rightarrow> 'ci transformer \<Rightarrow> ('k, 'ci) invocation \<Rightarrow> jsvalue" where
  "projection worker transformResult call =
     transformResult (rawResult worker call) (snd (snd (snd call)))"

definition accepted ::
  "('k, 'ci) worker \<Rightarrow> 'ci transformer \<Rightarrow> ('k, 'ci) invocation \<Rightarrow> bool" where
  "accepted worker transformResult call =
     (truthy (rawResult worker call) \<and> truthy (projection worker transformResult call))"

text \<open>
  The calls a dispatch can make, in the order it would make them: for a generated script
  every document of the walker, every parameter set of that document and every enabled
  plugin in registration order; for any other script the one document with the one
  parameter set and every enabled plugin. Each call is paired with the plugin's index.
\<close>

definition enabledPlugins :: "'ci LanguageServiceContext \<Rightarrow> (nat \<times> plugin) list" where
  "enabledPlugins context =
     filter (\<lambda>entry. snd (snd entry) \<notin> disabledServicePlugins context)
       (enumerate 0 (plugins context))"

definition candidateCalls ::
  "'ci LanguageServiceContext \<Rightarrow> uri \<Rightarrow> SourceScript \<Rightarrow> (unit \<Rightarrow> 'k)
     \<Rightarrow> ('ci DocumentsAndMap \<Rightarrow> 'k list) \<Rightarrow> (nat \<times> ('k, 'ci) invocation) list" where
  "candidateCalls context u sourceScript getRealDocParams eachVirtualDocParams =
     (case generated sourceScript of
        Some root \<Rightarrow>
          concat (map (\<lambda>docs.
            concat (map (\<lambda>mappedArg.
              map (\<lambda>entry. (fst entry, (snd entry, fst (snd docs), mappedArg, Some docs)))
                (enabledPlugins context))
              (eachVirtualDocParams docs)))
            (forEachEmbeddedDocument context sourceScript root))
      | None \<Rightarrow>
          map (\<lambda>entry. (fst entry,
                 (snd entry,
                  documents_get context u (script_languageId sourceScript)
                    (script_snapshot sourceScript),
                  getRealDocParams (), None)))
            (enabledPlugins context))"

text \<open>
  Making one call and recording it, and running a list of calls one after the other
  until a result has been accumulated and there is no combiner.
\<close>

definition recordCall ::
  "('k, 'ci) worker \<Rightarrow> 'ci transformer \<Rightarrow> ('k, 'ci) run
     \<Rightarrow> nat \<times> ('k, 'ci) invocation \<Rightarrow> ('k, 'ci) run" where
  "recordCall worker transformResult st candidate =
     (case candidate of (pluginIndex, plugin, document, params, docs) \<Rightarrow>
        st\<lparr>invoked := invoked st @ [(plugin, document, params, docs)],
           warned := warned st
               @ snd (safeCall (\<lambda>_. worker plugin document params docs)
                        (fst plugin, pluginIndex, uri document)),
           transformed := transformed st
               @ (if truthy (rawResult worker (plugin, document, params, docs))
                  then [(rawResult worker (plugin, document, params, docs), docs)]
                  else []),
           results := results st
               @ (if accepted worker transformResult (plugin, document, params, docs)
                  then [projection worker transformResult (plugin, document, params, docs)]
                  else [])\<rparr>)"

fun runCalls ::
  "('k, 'ci) worker \<Rightarrow> 'ci transformer \<Rightarrow> (jsvalue list \<Rightarrow> jsvalue) option
     \<Rightarrow> ('k, 'ci) run \<Rightarrow> (nat \<times> ('k, 'ci) invocation) list \<Rightarrow> ('k, 'ci) run" where
  "runCalls worker transformResult combineResult st [] = st"
| "runCalls worker transformResult combineResult st (candidate # rest) =
     (if results st \<noteq> [] \<and> combineResult = None then st
      else runCalls worker transformResult combineResult
             (recordCall worker transformResult st candidate) rest)"

text \<open>A worker that answers \<^verbatim>\<open>undefined\<close> wherever the given one throws or rejects.\<close>

definition withoutFailures :: "('k, 'ci) worker \<Rightarrow> ('k, 'ci) worker" where
  "withoutFailures worker plugin document params docs =
     (case worker plugin document params docs of
        Throws err \<Rightarrow> Returns JUndefined
      | Rejects err \<Rightarrow> Returns JUndefined
      | Returns v \<Rightarrow> Returns v
      | Fulfills v \<Rightarrow> Fulfills v)"

section \<open>Example inputs\<close>

text \<open>
  A text document whose text has no line break, behaving as the text-document library
  does for such a text: every position is on line 0, and an offset or a character
  beyond the end of the text is clamped to the end.
\<close>

definition lineDocument :: "uri \<Rightarrow> string \<Rightarrow> snapshot \<Rightarrow> TextDocument" where
  "lineDocument u languageId text =
     \<lparr>uri = u, doc_languageId = languageId,
      offsetAt = (\<lambda>position. if line position = 0
                             then min (character position) (length text)
                             else length text),
      positionAt = (\<lambda>offset. \<lparr>line = 0, character = min offset (length text)\<rparr>)\<rparr>"

text \<open>
  A source map with one mapping: the generated offsets \<open>0..n\<close> correspond one to one to
  the source offsets \<open>d..d+n\<close>. The mapping carries no data.
\<close>

definition shiftMap :: "nat \<Rightarrow> nat \<Rightarrow> unit SourceMap" where
  "shiftMap d n =
     \<lparr>getSourceOffsets = (\<lambda>generatedOffset accept.
         if generatedOffset \<le> n \<and> accept () then [(generatedOffset + d, ())] else []),
      getGeneratedOffsets = (\<lambda>sourceOffset accept.
         if d \<le> sourceOffset \<and> sourceOffset \<le> d + n \<and> accept ()
         then [(sourceOffset - d, ())] else [])\<rparr>"

text \<open>
  A three-level embedding tree: the root holds a script block, which holds an inner
  block, and a style block. The script block's document is disabled.
\<close>

definition exampleInner :: VirtualCode where
  "exampleInner = VirtualCode ''inner'' ''json'' ''ab'' None"

definition exampleScriptBlock :: VirtualCode where
  "exampleScriptBlock = VirtualCode ''script'' ''javascript'' ''ab'' (Some [exampleInner])"

definition exampleStyle :: VirtualCode where
  "exampleStyle = VirtualCode ''style'' ''css'' ''cd'' (Some [])"

definition exampleRoot :: VirtualCode where
  "exampleRoot = VirtualCode ''root'' ''html'' ''<script>ab</script>''
                   (Some [exampleScriptBlock, exampleStyle])"

definition exampleUri :: uri where
  "exampleUri = ''file:///a.vue''"

definition exampleSourceScript :: SourceScript where
  "exampleSourceScript =
     \<lparr>script_id = exampleUri, script_languageId = ''vue'',
      script_snapshot = ''<script>ab</script>'', generated = Some exampleRoot\<rparr>"

definition exampleEncode :: "uri \<Rightarrow> string \<Rightarrow> uri" where
  "exampleEncode u codeId = u @ ''#'' @ codeId"

definition exampleContext :: "unit LanguageServiceContext" where
  "exampleContext =
     \<lparr>scripts_get = [exampleUri \<mapsto> exampleSourceScript],
      maps_get = (\<lambda>code script. shiftMap 8 2),
      documents_get = lineDocument,
      plugins = [(''first'', 0), (''second'', 1)],
      disabledServicePlugins = {},
      disabledEmbeddedDocumentUris = [exampleEncode exampleUri ''script'' \<mapsto> True],
      encodeEmbeddedDocumentUri = exampleEncode\<rparr>"

text \<open>
  Workers and a projection for the examples: the first plugin throws and the second
  answers an object; every plugin answers the empty string; the projection keeps the
  result, or answers a fixed object.
\<close>

definition failThenAnswer :: "(unit, unit) worker" where
  "failThenAnswer plugin document params docs =
     (if fst plugin = ''first'' then Throws ''failed'' else Returns (JObject 1))"

definition answerEmptyString :: "(unit, unit) worker" where
  "answerEmptyString plugin document params docs = Returns (JString [])"

definition keepResult :: "unit transformer" where
  "keepResult result docs = result"

definition fixedObject :: "unit transformer" where
  "fixedObject result docs = JObject 7"

definition noParams :: "unit \<Rightarrow> unit" where
  "noParams x = ()"

definition oneParams :: "unit DocumentsAndMap \<Rightarrow> unit list" where
  "oneParams docs = [()]"

text \<open>
  The tuple the walker yields for the inner block, and the same tuple with the source
  document holding the source text.
\<close>

definition innerDocs :: "unit DocumentsAndMap" where
  "innerDocs =
     (lineDocument exampleUri ''json'' ''ab'',
      lineDocument (exampleEncode exampleUri ''inner'') ''json'' ''ab'',
      shiftMap 8 2)"

definition innerDocsOverSource :: "unit DocumentsAndMap" where
  "innerDocsOverSource =
     (lineDocument exampleUri ''vue'' ''<script>ab</script>'',
      lineDocument (exampleEncode exampleUri ''inner'') ''json'' ''ab'',
      shiftMap 8 2)"

section \<open>Properties\<close>

lemma forEach_simp:
  "forEachEmbeddedDocument context sourceScript current =
     concat (map (forEachEmbeddedDocument context sourceScript) (children current))
     @ (if isEnabledCode context (script_id sourceScript) current
        then [yieldedDocs context sourceScript current] else [])"
  by (cases current) (simp add: children_def isEnabledCode_def split: option.splits)

lemma postOrder_simp:
  "postOrder current = concat (map postOrder (children current)) @ [current]"
  by (cases current) (simp add: children_def split: option.splits)

lemma size_children: "c \<in> set (children current) \<Longrightarrow> size c < size current"
  apply (cases current)
  apply (auto simp: children_def split: option.splits)
  using not_less_eq size_list_estimation by fastforce

lemma VirtualCode_children_induct [case_names node]:
  assumes "\<And>current. (\<And>c. c \<in> set (children current) \<Longrightarrow> P c) \<Longrightarrow> P current"
  shows "P current"
proof (induction current rule: measure_induct_rule [where f = size])
  case (less x)
  then show ?case using assms size_children by blast
qed

lemma forEach_postOrder:
  "forEachEmbeddedDocument context sourceScript current =
     map (yieldedDocs context sourceScript)
       (filter (isEnabledCode context (script_id sourceScript)) (postOrder current))"
proof (induction current rule: VirtualCode_children_induct)
  case (node current)
  have "map (forEachEmbeddedDocument context sourceScript) (children current) =
        map (\<lambda>c. map (yieldedDocs context sourceScript)
              (filter (isEnabledCode context (script_id sourceScript)) (postOrder c)))
          (children current)"
    using node by simp
  then show ?case
    apply (subst forEach_simp) apply (subst postOrder_simp)
    apply (simp only: )
    apply (simp add: map_concat filter_concat comp_def del: forEachEmbeddedDocument.simps postOrder.simps)
    done
qed


lemma forEach_segment:
  "current \<in> set (postOrder root) \<Longrightarrow>
     \<exists>before after. forEachEmbeddedDocument context sourceScript root =
       before @ forEachEmbeddedDocument context sourceScript current @ after"
proof (induction root rule: VirtualCode_children_induct)
  case (node root)
  show ?case
  proof (cases "current = root")
    case True
    have "forEachEmbeddedDocument context sourceScript root =
            [] @ forEachEmbeddedDocument context sourceScript current @ []"
      using True by simp
    then show ?thesis by blast
  next
    case False
    with node.prems obtain c where c: "c \<in> set (children root)" "current \<in> set (postOrder c)"
      by (subst (asm) postOrder_simp) auto
    from node.IH [OF c] obtain b a where
      ba: "forEachEmbeddedDocument context sourceScript c =
             b @ forEachEmbeddedDocument context sourceScript current @ a"
      by blast
    from c(1) obtain xs ys where xy: "children root = xs @ c # ys"
      by (meson split_list)
    have "forEachEmbeddedDocument context sourceScript root =
            (concat (map (forEachEmbeddedDocument context sourceScript) xs) @ b)
            @ forEachEmbeddedDocument context sourceScript current
            @ (a @ concat (map (forEachEmbeddedDocument context sourceScript) ys)
                 @ (if isEnabledCode context (script_id sourceScript) root
                    then [yieldedDocs context sourceScript root] else []))"
      by (subst forEach_simp) (simp add: xy ba del: forEachEmbeddedDocument.simps)
    then show ?thesis by blast
  qed
qed

lemma nextLevel_children:
  "nextLevel context sourceFileUri files =
     concat (map (\<lambda>node. filter (isEnabledCode context sourceFileUri) (children node)) files)"
proof -
  have "(\<lambda>file. case embeddedCodes file of None \<Rightarrow> []
          | Some codes \<Rightarrow> filter (\<lambda>embedded. \<not> isDisabledUri context
               (encodeEmbeddedDocumentUri context sourceFileUri (code_id embedded))) codes)
        = (\<lambda>node. filter (isEnabledCode context sourceFileUri) (children node))"
    by (rule ext) (auto simp: children_def isEnabledCode_def split: option.splits
                     intro!: filter_cong)
  then show ?thesis by (simp add: nextLevel_def)
qed

lemma loop_levels:
  "embeddedFilesByLevel \<noteq> [] \<Longrightarrow>
   embeddedFilesByLevel =
     map (levelOf context sourceFileUri rootFile) [0..<length embeddedFilesByLevel] \<Longrightarrow>
   getEmbeddedFilesByLevel_loop context sourceFileUri level embeddedFilesByLevel =
     (if 0 \<le> level then Some (levelOf context sourceFileUri rootFile (nat level)) else None)"
proof (induction "context" sourceFileUri level embeddedFilesByLevel
        rule: getEmbeddedFilesByLevel_loop.induct)
  case (1 ctx sourceFileUri level embeddedFilesByLevel)
  let ?n = "length embeddedFilesByLevel"
  show ?case
  proof (cases "int ?n > level")
    case True
    have "0 \<le> level \<Longrightarrow> embeddedFilesByLevel ! nat level =
            levelOf ctx sourceFileUri rootFile (nat level)"
    proof -
      assume "0 \<le> level"
      then have lt: "nat level < ?n" using True by linarith
      have "embeddedFilesByLevel ! nat level =
              map (levelOf ctx sourceFileUri rootFile) [0..<?n] ! nat level"
        using "1.prems"(2) by simp
      also have "\<dots> = levelOf ctx sourceFileUri rootFile (nat level)"
        using lt by simp
      finally show ?thesis .
    qed
    then show ?thesis
      using True by (subst getEmbeddedFilesByLevel_loop.simps) simp
  next
    case False
    have pos: "0 < ?n" using "1.prems"(1) by simp
    have "last embeddedFilesByLevel =
            last (map (levelOf ctx sourceFileUri rootFile) [0..<?n])"
      using "1.prems"(2) by simp
    also have "\<dots> = levelOf ctx sourceFileUri rootFile (?n - 1)"
      using pos by (simp add: last_map)
    finally have lastL:
      "last embeddedFilesByLevel = levelOf ctx sourceFileUri rootFile (?n - 1)" .
    have nxt: "nextLevel ctx sourceFileUri (last embeddedFilesByLevel) =
                 levelOf ctx sourceFileUri rootFile ?n"
    proof -
      from pos obtain m where m: "?n = Suc m" by (auto simp: gr0_conv_Suc)
      have "levelOf ctx sourceFileUri rootFile (Suc m) =
              nextLevel ctx sourceFileUri (levelOf ctx sourceFileUri rootFile m)"
        by (simp add: nextLevel_children)
      then show ?thesis using lastL m by simp
    qed
    let ?L = "embeddedFilesByLevel @ [nextLevel ctx sourceFileUri (last embeddedFilesByLevel)]"
    have inv: "?L = map (levelOf ctx sourceFileUri rootFile) [0..<length ?L]"
      using "1.prems"(2) nxt by simp
    have "getEmbeddedFilesByLevel_loop ctx sourceFileUri level ?L =
            (if 0 \<le> level then Some (levelOf ctx sourceFileUri rootFile (nat level))
             else None)"
      using "1.IH" [OF False _ inv] by simp
    then show ?thesis
      using False by (subst getEmbeddedFilesByLevel_loop.simps) simp
  qed
qed

lemma getEmbeddedFilesByLevel_levelOf:
  "getEmbeddedFilesByLevel context sourceFileUri rootFile level =
     (if 0 \<le> level then Some (levelOf context sourceFileUri rootFile (nat level)) else None)"
  unfolding getEmbeddedFilesByLevel_def
  by (rule loop_levels) simp_all

text \<open>
  Claim C7. Level 0 of the level-indexed view is the root alone, and every level
  \<open>k > 0\<close> is the concatenation, over the nodes of level \<open>k - 1\<close> in order, of the
  children of the node whose encoded identity is not disabled.
\<close>

theorem getEmbeddedFilesByLevel_levels:
  "getEmbeddedFilesByLevel context sourceFileUri rootFile 0 = Some [rootFile] \<and>
   (\<forall>k>0. \<exists>previous.
      getEmbeddedFilesByLevel context sourceFileUri rootFile (k - 1) = Some previous \<and>
      getEmbeddedFilesByLevel context sourceFileUri rootFile k =
        Some (concat (map (\<lambda>node. filter (isEnabledCode context sourceFileUri) (children node))
                        previous)))"
proof (intro conjI allI impI)
  show "getEmbeddedFilesByLevel context sourceFileUri rootFile 0 = Some [rootFile]"
    by (simp add: getEmbeddedFilesByLevel_levelOf)
next
  fix k :: int
  assume k: "0 < k"
  then have "nat k = Suc (nat (k - 1))" by simp
  then have "levelOf context sourceFileUri rootFile (nat k) =
      concat (map (\<lambda>node. filter (isEnabledCode context sourceFileUri) (children node))
                (levelOf context sourceFileUri rootFile (nat (k - 1))))"
    by simp
  then show "\<exists>previous.
      getEmbeddedFilesByLevel context sourceFileUri rootFile (k - 1) = Some previous \<and>
      getEmbeddedFilesByLevel context sourceFileUri rootFile k =
        Some (concat (map (\<lambda>node. filter (isEnabledCode context sourceFileUri) (children node))
                        previous))"
    using k by (simp add: getEmbeddedFilesByLevel_levelOf)
qed

lemma safeCall_rawResult:
  "fst (safeCall (\<lambda>_. worker plugin document params docs) msg) =
     rawResult worker (plugin, document, params, docs)"
  by (simp add: rawResult_def safeCall_def split: outcome.splits)

lemma virtualPluginStep_recordCall:
  "virtualPluginStep context worker transformResult combineResult docs mappedArg st
       (pluginIndex, plugin) =
     (if snd plugin \<in> disabledServicePlugins context
         \<or> (results st \<noteq> [] \<and> combineResult = None)
      then st
      else recordCall worker transformResult st
             (pluginIndex, plugin, fst (snd docs), mappedArg, Some docs))"
proof -
  obtain rawR out where sc:
    "safeCall (\<lambda>_. worker plugin (fst (snd docs)) mappedArg (Some docs))
       (fst plugin, pluginIndex, uri (fst (snd docs))) = (rawR, out)"
    by (cases "safeCall (\<lambda>_. worker plugin (fst (snd docs)) mappedArg (Some docs))
       (fst plugin, pluginIndex, uri (fst (snd docs)))") 
  then have raw: "rawResult worker (plugin, fst (snd docs), mappedArg, Some docs) = rawR"
    using safeCall_rawResult [of worker plugin "fst (snd docs)" mappedArg "Some docs"
        "(fst plugin, pluginIndex, uri (fst (snd docs)))"] by simp
  show ?thesis
    by (simp add: virtualPluginStep_def recordCall_def accepted_def projection_def
          raw sc Let_def)
qed

lemma runCalls_stuck:
  "results st \<noteq> [] \<and> combineResult = None \<Longrightarrow>
     runCalls worker transformResult combineResult st calls = st"
  by (cases calls) simp_all

lemma runCalls_continue:
  "\<not> (results st \<noteq> [] \<and> combineResult = None) \<Longrightarrow>
     runCalls worker transformResult combineResult st (candidate # rest) =
       runCalls worker transformResult combineResult
         (recordCall worker transformResult st candidate) rest"
  by auto

lemma virtualPluginStep_continue:
  "\<not> (results st \<noteq> [] \<and> combineResult = None) \<Longrightarrow>
   snd plugin \<notin> disabledServicePlugins context \<Longrightarrow>
     virtualPluginStep context worker transformResult combineResult docs mappedArg st
       (pluginIndex, plugin) =
     recordCall worker transformResult st
       (pluginIndex, plugin, fst (snd docs), mappedArg, Some docs)"
  by (auto simp: virtualPluginStep_recordCall)

lemma virtualPluginStep_skip:
  "results st \<noteq> [] \<and> combineResult = None
     \<or> snd plugin \<in> disabledServicePlugins context \<Longrightarrow>
     virtualPluginStep context worker transformResult combineResult docs mappedArg st
       (pluginIndex, plugin) = st"
  by (auto simp: virtualPluginStep_recordCall)

lemma runCalls_append:
  "runCalls worker transformResult combineResult st (xs @ ys) =
     runCalls worker transformResult combineResult
       (runCalls worker transformResult combineResult st xs) ys"
proof (induction xs arbitrary: st)
  case Nil
  show ?case by simp
next
  case (Cons x xs)
  show ?case
  proof (cases "results st \<noteq> [] \<and> combineResult = None")
    case True
    then show ?thesis by (simp add: runCalls_stuck)
  next
    case False
    show ?thesis
      by (simp only: append_Cons runCalls_continue [OF False] Cons.IH)
  qed
qed

lemma foldl_virtualPluginStep:
  "foldl (virtualPluginStep context worker transformResult combineResult docs mappedArg)
       st entries =
     runCalls worker transformResult combineResult st
       (map (\<lambda>entry. (fst entry, (snd entry, fst (snd docs), mappedArg, Some docs)))
          (filter (\<lambda>entry. snd (snd entry) \<notin> disabledServicePlugins context) entries))"
proof (induction entries arbitrary: st)
  case Nil
  show ?case by simp
next
  case (Cons entry entries)
  obtain pluginIndex plugin where e: "entry = (pluginIndex, plugin)" by (cases entry)
  show ?case
  proof (cases "results st \<noteq> [] \<and> combineResult = None")
    case True
    then have "virtualPluginStep context worker transformResult combineResult docs mappedArg
                 st entry = st"
      by (simp add: e virtualPluginStep_skip)
    then show ?thesis using True Cons.IH [of st] by (simp add: runCalls_stuck)
  next
    case False
    show ?thesis
    proof (cases "snd plugin \<in> disabledServicePlugins context")
      case True
      then show ?thesis using Cons.IH [of st] by (simp add: e virtualPluginStep_skip)
    next
      case enabled: False
      let ?step = "virtualPluginStep context worker transformResult combineResult docs
                     mappedArg"
      let ?mk = "\<lambda>entry :: nat \<times> plugin.
                   (fst entry, (snd entry, fst (snd docs), mappedArg, Some docs))"
      let ?en = "\<lambda>entry :: nat \<times> plugin. snd (snd entry) \<notin> disabledServicePlugins context"
      have "foldl ?step st (entry # entries) =
              foldl ?step (recordCall worker transformResult st (?mk entry)) entries"
        by (simp add: e virtualPluginStep_continue [OF False enabled])
      also have "\<dots> = runCalls worker transformResult combineResult
                         (recordCall worker transformResult st (?mk entry))
                         (map ?mk (filter ?en entries))"
        by (rule Cons.IH)
      also have "\<dots> = runCalls worker transformResult combineResult st
                         (?mk entry # map ?mk (filter ?en entries))"
        by (rule runCalls_continue [OF False, symmetric])
      also have "?mk entry # map ?mk (filter ?en entries) =
                   map ?mk (filter ?en (entry # entries))"
        using enabled by (simp add: e)
      finally show ?thesis .
    qed
  qed
qed

lemma virtualParamsStep_runCalls:
  "virtualParamsStep context worker transformResult combineResult docs st mappedArg =
     runCalls worker transformResult combineResult st
       (map (\<lambda>entry. (fst entry, (snd entry, fst (snd docs), mappedArg, Some docs)))
          (enabledPlugins context))"
  by (cases "results st \<noteq> [] \<and> combineResult = None")
     (simp_all add: virtualParamsStep_def foldl_virtualPluginStep enabledPlugins_def
        runCalls_stuck)

lemma foldl_virtualParamsStep:
  "foldl (virtualParamsStep context worker transformResult combineResult docs) st args =
     runCalls worker transformResult combineResult st
       (concat (map (\<lambda>mappedArg.
          map (\<lambda>entry. (fst entry, (snd entry, fst (snd docs), mappedArg, Some docs)))
            (enabledPlugins context)) args))"
  by (induction args arbitrary: st) (simp_all add: virtualParamsStep_runCalls runCalls_append)

lemma virtualDocsStep_runCalls:
  "virtualDocsStep context eachVirtualDocParams worker transformResult combineResult st docs =
     runCalls worker transformResult combineResult st
       (concat (map (\<lambda>mappedArg.
          map (\<lambda>entry. (fst entry, (snd entry, fst (snd docs), mappedArg, Some docs)))
            (enabledPlugins context)) (eachVirtualDocParams docs)))"
  by (cases "results st \<noteq> [] \<and> combineResult = None")
     (simp_all add: virtualDocsStep_def foldl_virtualParamsStep runCalls_stuck)

lemma foldl_virtualDocsStep:
  "foldl (virtualDocsStep context eachVirtualDocParams worker transformResult combineResult)
       st documents =
     runCalls worker transformResult combineResult st
       (concat (map (\<lambda>docs. concat (map (\<lambda>mappedArg.
          map (\<lambda>entry. (fst entry, (snd entry, fst (snd docs), mappedArg, Some docs)))
            (enabledPlugins context)) (eachVirtualDocParams docs))) documents))"
  by (induction documents arbitrary: st)
     (simp_all add: virtualDocsStep_runCalls runCalls_append)

lemma recordCall_results:
  "results (recordCall worker transformResult st (pluginIndex, call)) =
     results st @ (if accepted worker transformResult call
                   then [projection worker transformResult call] else [])"
  by (cases call) (simp add: recordCall_def)

lemma realPluginLoop_runCalls:
  "results st = [] \<or> combineResult \<noteq> None \<Longrightarrow>
   realPluginLoop context worker transformResult combineResult document params st entries =
     runCalls worker transformResult combineResult st
       (map (\<lambda>entry. (fst entry, (snd entry, document, params, None)))
          (filter (\<lambda>entry. snd (snd entry) \<notin> disabledServicePlugins context) entries))"
proof (induction entries arbitrary: st)
  case Nil
  show ?case by simp
next
  case (Cons entry entries)
  obtain pluginIndex plugin where e: "entry = (pluginIndex, plugin)" by (cases entry)
  let ?call = "(plugin, document, params, None :: 'b DocumentsAndMap option)"
  let ?next = "recordCall worker transformResult st (pluginIndex, ?call)"
  show ?case
  proof (cases "snd plugin \<in> disabledServicePlugins context")
    case True
    then show ?thesis using Cons by (simp add: e)
  next
    case False
    obtain rawR out where sc:
      "safeCall (\<lambda>_. worker plugin document params None)
         (fst plugin, pluginIndex, uri document) = (rawR, out)"
      by (cases "safeCall (\<lambda>_. worker plugin document params None)
         (fst plugin, pluginIndex, uri document)")
    then have raw: "rawResult worker ?call = rawR"
      using safeCall_rawResult [of worker plugin document params None
          "(fst plugin, pluginIndex, uri document)"] by simp
    have step: "realPluginLoop context worker transformResult combineResult document params st
            (entry # entries) =
          (if accepted worker transformResult ?call \<and> combineResult = None then ?next
           else realPluginLoop context worker transformResult combineResult document params
                  ?next entries)"
      using False
      by (simp add: e sc raw recordCall_def accepted_def projection_def Let_def)
    show ?thesis
    proof (cases "accepted worker transformResult ?call \<and> combineResult = None")
      case True
      then have "results ?next \<noteq> []" by (simp add: recordCall_results)
      then show ?thesis
        using True False Cons.prems step by (simp add: e runCalls_stuck)
    next
      case no: False
      have "results ?next = [] \<or> combineResult \<noteq> None"
        using no Cons.prems by (auto simp: recordCall_results)
      from Cons.IH [OF this] show ?thesis
        using no False Cons.prems step by (auto simp: e)
    qed
  qed
qed

lemma collectResults_runCalls:
  "collectResults context u sourceScript getRealDocParams eachVirtualDocParams worker
       transformResult combineResult =
     runCalls worker transformResult combineResult emptyRun
       (candidateCalls context u sourceScript getRealDocParams eachVirtualDocParams)"
proof (cases "generated sourceScript")
  case None
  have "results (emptyRun :: ('a, 'b) run) = []" by (simp add: emptyRun_def)
  then show ?thesis
    using None
    by (simp add: collectResults_def candidateCalls_def realPluginLoop_runCalls
          enabledPlugins_def Let_def)
next
  case (Some root)
  then show ?thesis
    by (simp add: collectResults_def candidateCalls_def foldl_virtualDocsStep)
qed

lemma recordCall_invoked:
  "invoked (recordCall worker transformResult st (pluginIndex, call)) = invoked st @ [call]"
  by (cases call) (simp add: recordCall_def)

lemma recordCall_transformed:
  "transformed (recordCall worker transformResult st (pluginIndex, call)) =
     transformed st @ (if truthy (rawResult worker call)
                       then [(rawResult worker call, snd (snd (snd call)))] else [])"
  by (cases call) (simp add: recordCall_def)

lemma runCalls_results:
  "results st = map (projection worker transformResult)
                  (filter (accepted worker transformResult) (invoked st)) \<Longrightarrow>
   results (runCalls worker transformResult combineResult st calls) =
     map (projection worker transformResult)
       (filter (accepted worker transformResult)
          (invoked (runCalls worker transformResult combineResult st calls)))"
proof (induction calls arbitrary: st)
  case Nil
  then show ?case by simp
next
  case (Cons candidate calls)
  obtain pluginIndex call where c: "candidate = (pluginIndex, call)" by (cases candidate)
  show ?case
  proof (cases "results st \<noteq> [] \<and> combineResult = None")
    case True
    then show ?thesis using Cons.prems by (simp add: runCalls_stuck)
  next
    case False
    have "results (recordCall worker transformResult st candidate) =
            map (projection worker transformResult)
              (filter (accepted worker transformResult)
                 (invoked (recordCall worker transformResult st candidate)))"
      using Cons.prems by (simp add: c recordCall_results recordCall_invoked)
    from Cons.IH [OF this] show ?thesis
      by (simp only: runCalls_continue [OF False])
  qed
qed

lemma runCalls_transformed:
  "transformed st = map (\<lambda>call. (rawResult worker call, snd (snd (snd call))))
                      (filter (\<lambda>call. truthy (rawResult worker call)) (invoked st)) \<Longrightarrow>
   transformed (runCalls worker transformResult combineResult st calls) =
     map (\<lambda>call. (rawResult worker call, snd (snd (snd call))))
       (filter (\<lambda>call. truthy (rawResult worker call))
          (invoked (runCalls worker transformResult combineResult st calls)))"
proof (induction calls arbitrary: st)
  case Nil
  then show ?case by simp
next
  case (Cons candidate calls)
  obtain pluginIndex call where c: "candidate = (pluginIndex, call)" by (cases candidate)
  show ?case
  proof (cases "results st \<noteq> [] \<and> combineResult = None")
    case True
    then show ?thesis using Cons.prems by (simp add: runCalls_stuck)
  next
    case False
    have "transformed (recordCall worker transformResult st candidate) =
            map (\<lambda>call. (rawResult worker call, snd (snd (snd call))))
              (filter (\<lambda>call. truthy (rawResult worker call))
                 (invoked (recordCall worker transformResult st candidate)))"
      using Cons.prems by (simp add: c recordCall_transformed recordCall_invoked)
    from Cons.IH [OF this] show ?thesis
      by (simp only: runCalls_continue [OF False])
  qed
qed

lemma runCalls_prefix:
  "\<exists>n. invoked (runCalls worker transformResult combineResult st calls) =
         invoked st @ map snd (take n calls)"
proof (induction calls arbitrary: st)
  case Nil
  show ?case by simp
next
  case (Cons candidate calls)
  obtain pluginIndex call where c: "candidate = (pluginIndex, call)" by (cases candidate)
  show ?case
  proof (cases "results st \<noteq> [] \<and> combineResult = None")
    case True
    then have "invoked (runCalls worker transformResult combineResult st (candidate # calls)) =
                 invoked st @ map snd (take 0 (candidate # calls))"
      by (simp add: runCalls_stuck)
    then show ?thesis by blast
  next
    case False
    from Cons.IH [of "recordCall worker transformResult st candidate"] obtain n where
      "invoked (runCalls worker transformResult combineResult
                  (recordCall worker transformResult st candidate) calls) =
         invoked (recordCall worker transformResult st candidate) @ map snd (take n calls)"
      by blast
    then have "invoked (runCalls worker transformResult combineResult st (candidate # calls)) =
                 invoked st @ map snd (take (Suc n) (candidate # calls))"
      by (simp only: runCalls_continue [OF False])
         (simp add: c recordCall_invoked)
    then show ?thesis by blast
  qed
qed

lemma runCalls_rejected_before_last:
  "results st = map (projection worker transformResult)
                  (filter (accepted worker transformResult) (invoked st)) \<Longrightarrow>
   \<forall>call \<in> set (butlast (invoked st)). \<not> accepted worker transformResult call \<Longrightarrow>
   \<forall>call \<in> set (butlast (invoked (runCalls worker transformResult None st calls))).
      \<not> accepted worker transformResult call"
proof (induction calls arbitrary: st)
  case Nil
  then show ?case by simp
next
  case (Cons candidate calls)
  obtain pluginIndex call where c: "candidate = (pluginIndex, call)" by (cases candidate)
  show ?case
  proof (cases "results st \<noteq> []")
    case True
    then show ?thesis using Cons.prems(2) by (simp add: runCalls_stuck)
  next
    case False
    then have none: "\<forall>call \<in> set (invoked st). \<not> accepted worker transformResult call"
      using Cons.prems(1) by (auto simp: filter_empty_conv)
    have coh: "results (recordCall worker transformResult st candidate) =
            map (projection worker transformResult)
              (filter (accepted worker transformResult)
                 (invoked (recordCall worker transformResult st candidate)))"
      using Cons.prems(1) by (simp add: c recordCall_results recordCall_invoked)
    have "\<forall>call \<in> set (butlast (invoked (recordCall worker transformResult st candidate))).
            \<not> accepted worker transformResult call"
      using none by (simp add: c recordCall_invoked)
    from Cons.IH [OF coh this] show ?thesis
      using False by simp
  qed
qed

lemma emptyRun_fields:
  "invoked emptyRun = []" "warned emptyRun = []" "transformed emptyRun = []"
  "results emptyRun = []"
  by (simp_all add: emptyRun_def)

lemma collectResults_results:
  "results (collectResults context u sourceScript getRealDocParams eachVirtualDocParams worker
              transformResult combineResult) =
     map (projection worker transformResult)
       (filter (accepted worker transformResult)
          (invoked (collectResults context u sourceScript getRealDocParams
                      eachVirtualDocParams worker transformResult combineResult)))"
  unfolding collectResults_runCalls
  by (rule runCalls_results) (simp add: emptyRun_fields)

lemma collectResults_transformed:
  "transformed (collectResults context u sourceScript getRealDocParams eachVirtualDocParams
                  worker transformResult combineResult) =
     map (\<lambda>call. (rawResult worker call, snd (snd (snd call))))
       (filter (\<lambda>call. truthy (rawResult worker call))
          (invoked (collectResults context u sourceScript getRealDocParams
                      eachVirtualDocParams worker transformResult combineResult)))"
  unfolding collectResults_runCalls
  by (rule runCalls_transformed) (simp add: emptyRun_fields)

lemma collectResults_prefix:
  "prefix (invoked (collectResults context u sourceScript getRealDocParams
                      eachVirtualDocParams worker transformResult combineResult))
     (map snd (candidateCalls context u sourceScript getRealDocParams eachVirtualDocParams))"
proof -
  let ?calls = "candidateCalls context u sourceScript getRealDocParams eachVirtualDocParams"
  obtain n where "invoked (runCalls worker transformResult combineResult emptyRun ?calls) =
                    invoked emptyRun @ map snd (take n ?calls)"
    using runCalls_prefix by blast
  then have "invoked (runCalls worker transformResult combineResult emptyRun ?calls) =
               take n (map snd ?calls)"
    by (simp add: emptyRun_fields take_map)
  then show ?thesis
    unfolding collectResults_runCalls by (simp add: take_is_prefix)
qed

lemma collectResults_rejected_before_last:
  "\<forall>call \<in> set (butlast (invoked (collectResults context u sourceScript getRealDocParams
                      eachVirtualDocParams worker transformResult None))).
      \<not> accepted worker transformResult call"
  unfolding collectResults_runCalls
  by (rule runCalls_rejected_before_last) (simp_all add: emptyRun_fields)

text \<open>
  Claim C1. Without \<^verbatim>\<open>combineResult\<close>, once a worker call has been accepted (its result
  and the projection of its result are truthy, so the projection is pushed to
  \<^verbatim>\<open>results\<close>), the dispatcher makes no further worker call, in the generated path and in
  the non-generated path alike: in the trace of calls nothing follows an accepted call.
  No earlier call of the trace was accepted, the calls were made in the order of the
  walker, the parameter sets and the plugin registry, \<^verbatim>\<open>results\<close> holds the projection of
  that call alone, and it is the value returned.
\<close>

theorem languageFeatureWorker_first_result_wins:
  assumes known: "scripts_get context u = Some sourceScript"
    and run: "languageFeatureWorker context u getRealDocParams eachVirtualDocParams worker
                transformResult None = (returned, st)"
    and trace: "invoked st = before @ call # after"
    and acc: "accepted worker transformResult call"
  shows "after = []
     \<and> (\<forall>earlier \<in> set before. \<not> accepted worker transformResult earlier)
     \<and> results st = [projection worker transformResult call]
     \<and> returned = projection worker transformResult call
     \<and> prefix (before @ [call])
         (map snd (candidateCalls context u sourceScript getRealDocParams
                     eachVirtualDocParams))"
proof -
  let ?st = "collectResults context u sourceScript getRealDocParams eachVirtualDocParams
               worker transformResult None"
  have st: "st = ?st"
    using run known by (simp add: languageFeatureWorker_def Let_def split: if_splits)
  have rej: "\<forall>c \<in> set (butlast (invoked st)). \<not> accepted worker transformResult c"
    unfolding st by (rule collectResults_rejected_before_last)
  have after: "after = []"
  proof (rule ccontr)
    assume "after \<noteq> []"
    then have "call \<in> set (butlast (invoked st))"
      by (simp add: trace butlast_append)
    with rej acc show False by blast
  qed
  then have before: "\<forall>earlier \<in> set before. \<not> accepted worker transformResult earlier"
    using rej trace by (simp add: butlast_append)
  have "results st = map (projection worker transformResult)
                       (filter (accepted worker transformResult) (invoked st))"
    unfolding st by (rule collectResults_results)
  then have res: "results st = [projection worker transformResult call]"
    using before acc after trace by (simp add: filter_empty_conv)
  have ret: "returned = projection worker transformResult call"
    using run known res st by (simp add: languageFeatureWorker_def Let_def)
  have "prefix (invoked st)
          (map snd (candidateCalls context u sourceScript getRealDocParams
                      eachVirtualDocParams))"
    unfolding st by (rule collectResults_prefix)
  then show ?thesis using after before res ret trace by simp
qed

text \<open>
  Claim C2. The walker yields in post-order: what it yields for a node is what it yields
  for each child, in the declared order of the children, followed by the node's own
  document; over the whole tree the yielded documents are those of the enabled nodes in
  the post-order of the tree.
\<close>

theorem forEachEmbeddedDocument_post_order:
  "forEachEmbeddedDocument context sourceScript current =
     concat (map (forEachEmbeddedDocument context sourceScript) (children current))
     @ (if isEnabledCode context (script_id sourceScript) current
        then [yieldedDocs context sourceScript current] else [])
   \<and> forEachEmbeddedDocument context sourceScript current =
     map (yieldedDocs context sourceScript)
       (filter (isEnabledCode context (script_id sourceScript)) (postOrder current))"
  using forEach_simp [of "context" sourceScript current]
    forEach_postOrder [of "context" sourceScript current]
  by (rule conjI)

lemma forEach_enabled_member:
  "descendant \<in> set (postOrder current) \<Longrightarrow>
   isEnabledCode context (script_id sourceScript) descendant \<Longrightarrow>
   yieldedDocs context sourceScript descendant
     \<in> set (forEachEmbeddedDocument context sourceScript current)"
  by (simp add: forEach_postOrder)

lemma filter_removeAll_rejected:
  "\<not> P x \<Longrightarrow> filter P (removeAll x xs) = filter P xs"
  by (induction xs) auto

lemma accepted_by_stages:
  "map (projection worker transformResult) (filter (accepted worker transformResult) calls) =
     filter truthy
       (map (\<lambda>(raw, docs). transformResult raw docs)
          (map (\<lambda>call. (rawResult worker call, snd (snd (snd call))))
             (filter (\<lambda>call. truthy (rawResult worker call)) calls)))"
  by (induction calls) (auto simp: accepted_def projection_def)

text \<open>
  Claim C3. For a node of the tree whose encoded identity is disabled (the lookup of the
  identity in \<^verbatim>\<open>disabledEmbeddedDocumentUris\<close> answers \<^verbatim>\<open>true\<close>), the walker yields
  nothing for the node itself: its walk is the walks of its children, and the walk of the
  root is that of the post-order without the node. The walks of its children are still
  part of the walk of the root, and every enabled node at or below it has its document
  yielded, whatever the state of the node.
\<close>

theorem forEachEmbeddedDocument_disabled_node:
  assumes node: "current \<in> set (postOrder root)"
    and disabled: "isDisabledUri context
                     (encodeEmbeddedDocumentUri context (script_id sourceScript)
                        (code_id current))"
  shows "forEachEmbeddedDocument context sourceScript current =
           concat (map (forEachEmbeddedDocument context sourceScript) (children current))
     \<and> forEachEmbeddedDocument context sourceScript root =
           map (yieldedDocs context sourceScript)
             (filter (isEnabledCode context (script_id sourceScript))
                (removeAll current (postOrder root)))
     \<and> (\<exists>before after. forEachEmbeddedDocument context sourceScript root =
           before
           @ concat (map (forEachEmbeddedDocument context sourceScript) (children current))
           @ after)
     \<and> (\<forall>descendant \<in> set (postOrder current).
           isEnabledCode context (script_id sourceScript) descendant \<longrightarrow>
           yieldedDocs context sourceScript descendant
             \<in> set (forEachEmbeddedDocument context sourceScript root))"
proof -
  have off: "\<not> isEnabledCode context (script_id sourceScript) current"
    using disabled by (simp add: isEnabledCode_def)
  have own: "forEachEmbeddedDocument context sourceScript current =
           concat (map (forEachEmbeddedDocument context sourceScript) (children current))"
    using off by (subst forEach_simp) simp
  have "filter (isEnabledCode context (script_id sourceScript))
          (removeAll current (postOrder root)) =
        filter (isEnabledCode context (script_id sourceScript)) (postOrder root)"
    using off by (rule filter_removeAll_rejected)
  then have others: "forEachEmbeddedDocument context sourceScript root =
           map (yieldedDocs context sourceScript)
             (filter (isEnabledCode context (script_id sourceScript))
                (removeAll current (postOrder root)))"
    by (simp add: forEach_postOrder)
  obtain before after where seg:
    "forEachEmbeddedDocument context sourceScript root =
       before @ forEachEmbeddedDocument context sourceScript current @ after"
    using forEach_segment [OF node] by blast
  have below: "\<forall>descendant \<in> set (postOrder current).
           isEnabledCode context (script_id sourceScript) descendant \<longrightarrow>
           yieldedDocs context sourceScript descendant
             \<in> set (forEachEmbeddedDocument context sourceScript root)"
  proof (intro ballI impI)
    fix descendant
    assume "descendant \<in> set (postOrder current)"
      and "isEnabledCode context (script_id sourceScript) descendant"
    then have "yieldedDocs context sourceScript descendant
                 \<in> set (forEachEmbeddedDocument context sourceScript current)"
      by (rule forEach_enabled_member)
    then show "yieldedDocs context sourceScript descendant
                 \<in> set (forEachEmbeddedDocument context sourceScript root)"
      by (subst seg) simp
  qed
  from seg have "\<exists>before after. forEachEmbeddedDocument context sourceScript root =
           before
           @ concat (map (forEachEmbeddedDocument context sourceScript) (children current))
           @ after"
    using own by metis
  with own others below show ?thesis by blast
qed

text \<open>
  Claim C10. Every tuple the walker yields comes from a node of the tree; its first
  component is the document the cache gives for the source script's URI with the node's
  language id and the node's snapshot, its second component the document the cache gives
  for the encoded embedded-document URI with the same language id and snapshot, and its
  third the map of the node and the source script.
\<close>

theorem forEachEmbeddedDocument_documents:
  "\<forall>docs \<in> set (forEachEmbeddedDocument context sourceScript root).
     \<exists>current \<in> set (postOrder root).
       docs =
         (documents_get context (script_id sourceScript)
            (code_languageId current) (code_snapshot current),
          documents_get context
            (encodeEmbeddedDocumentUri context (script_id sourceScript) (code_id current))
            (code_languageId current) (code_snapshot current),
          maps_get context current sourceScript)"
  by (auto simp: forEach_postOrder yieldedDocs_def)

text \<open>
  Claim C6. The returned value is \<^verbatim>\<open>undefined\<close> when nothing was accumulated; otherwise it
  is \<^verbatim>\<open>combineResult\<close> applied to all accumulated results when that function was supplied,
  and the first accumulated result when it was not.
\<close>

theorem languageFeatureWorker_return_value:
  "fst (languageFeatureWorker context u getRealDocParams eachVirtualDocParams worker
          transformResult combineResult) =
     (case results (snd (languageFeatureWorker context u getRealDocParams
                           eachVirtualDocParams worker transformResult combineResult)) of
        [] \<Rightarrow> JUndefined
      | first # others \<Rightarrow>
          (case combineResult of
             Some combine \<Rightarrow> combine (first # others)
           | None \<Rightarrow> first))"
  by (simp add: languageFeatureWorker_def Let_def emptyRun_fields
        split: option.splits list.splits)

text \<open>
  Claim C8. For a URI that the script registry does not know, \<^verbatim>\<open>languageFeatureWorker\<close>
  and \<^verbatim>\<open>documentFeatureWorker\<close> return \<^verbatim>\<open>undefined\<close>, having called no worker and written
  nothing to the console.
\<close>

theorem languageFeatureWorker_unknown_uri:
  assumes "scripts_get context u = None"
  shows "languageFeatureWorker context u getRealDocParams eachVirtualDocParams worker
           transformResult combineResult =
           (JUndefined, \<lparr>invoked = [], warned = [], transformed = [], results = []\<rparr>)
     \<and> documentFeatureWorker context u valid documentWorker transformResult combineResult =
           (JUndefined, \<lparr>invoked = [], warned = [], transformed = [], results = []\<rparr>)"
  using assms
  by (simp add: documentFeatureWorker_def languageFeatureWorker_def emptyRun_def)

lemma rawResult_withoutFailures:
  "rawResult (withoutFailures worker) call = rawResult worker call"
  by (cases call)
     (simp add: rawResult_def safeCall_def withoutFailures_def split: outcome.splits)

lemma safeCall_withoutFailures:
  "snd (safeCall (\<lambda>_. withoutFailures worker plugin document params docs) msg) = []"
  by (simp add: safeCall_def withoutFailures_def split: outcome.splits)

lemma recordCall_withoutFailures:
  "recordCall (withoutFailures worker) transformResult (st\<lparr>warned := []\<rparr>) candidate =
     (recordCall worker transformResult st candidate)\<lparr>warned := []\<rparr>"
  by (cases candidate)
     (simp add: recordCall_def accepted_def projection_def rawResult_withoutFailures
        safeCall_withoutFailures)

lemma runCalls_withoutFailures:
  "runCalls (withoutFailures worker) transformResult combineResult (st\<lparr>warned := []\<rparr>) calls =
     (runCalls worker transformResult combineResult st calls)\<lparr>warned := []\<rparr>"
proof (induction calls arbitrary: st)
  case Nil
  show ?case by simp
next
  case (Cons candidate calls)
  show ?case
  proof (cases "results st \<noteq> [] \<and> combineResult = None")
    case True
    then show ?thesis by (simp add: runCalls_stuck)
  next
    case False
    then have nf: "\<not> (results (st\<lparr>warned := []\<rparr>) \<noteq> [] \<and> combineResult = None)"
      by simp
    show ?thesis
      by (simp only: runCalls_continue [OF False] runCalls_continue [OF nf]
            recordCall_withoutFailures Cons.IH)
  qed
qed

text \<open>
  Claim C5. A worker call that throws, or whose thenable is rejected, counts as a call
  that answered \<^verbatim>\<open>undefined\<close>: the dispatch with a worker equals, in its returned value, its
  worker calls, its projections and its results, the dispatch with the worker that
  answers \<^verbatim>\<open>undefined\<close> wherever the first one fails. Only the console output differs. The
  dispatch returns a value for every worker; no failure of the worker leaves it.
\<close>

theorem languageFeatureWorker_isolates_failures:
  "languageFeatureWorker context u getRealDocParams eachVirtualDocParams
       (withoutFailures worker) transformResult combineResult =
     (fst (languageFeatureWorker context u getRealDocParams eachVirtualDocParams worker
             transformResult combineResult),
      (snd (languageFeatureWorker context u getRealDocParams eachVirtualDocParams worker
              transformResult combineResult))\<lparr>warned := []\<rparr>)"
proof (cases "scripts_get context u")
  case None
  then show ?thesis by (simp add: languageFeatureWorker_def emptyRun_def)
next
  case (Some sourceScript)
  have "emptyRun = (emptyRun :: ('a, 'b) run)\<lparr>warned := []\<rparr>" by (simp add: emptyRun_def)
  then have "collectResults context u sourceScript getRealDocParams eachVirtualDocParams
          (withoutFailures worker) transformResult combineResult =
        (collectResults context u sourceScript getRealDocParams eachVirtualDocParams worker
           transformResult combineResult)\<lparr>warned := []\<rparr>"
    unfolding collectResults_runCalls
    using runCalls_withoutFailures [of worker transformResult combineResult emptyRun]
    by simp
  then show ?thesis using Some by (simp add: languageFeatureWorker_def Let_def)
qed

text \<open>
  Claim C4, as amended. In the generated path, \<^verbatim>\<open>transformResult\<close> is applied, with the
  current \<^verbatim>\<open>DocumentsAndMap\<close>, to the result of exactly those worker calls whose result
  is truthy, and the projected value is accumulated exactly when it is truthy. A falsy
  result is skipped without projection: \<^verbatim>\<open>null\<close> and \<^verbatim>\<open>undefined\<close>, and also \<^verbatim>\<open>false\<close>, \<^verbatim>\<open>0\<close>,
  \<^verbatim>\<open>NaN\<close> and the empty string. Every call is made on the embedded document of a tuple that
  the walker yielded, and is given that tuple.
\<close>

theorem languageFeatureWorker_projects_truthy_results:
  assumes known: "scripts_get context u = Some sourceScript"
    and tree: "generated sourceScript = Some root"
    and run: "languageFeatureWorker context u getRealDocParams eachVirtualDocParams worker
                transformResult combineResult = (returned, st)"
  shows "transformed st =
           map (\<lambda>call. (rawResult worker call, snd (snd (snd call))))
             (filter (\<lambda>call. truthy (rawResult worker call)) (invoked st))
     \<and> results st =
           filter truthy (map (\<lambda>(raw, docs). transformResult raw docs) (transformed st))
     \<and> (\<forall>call \<in> set (invoked st).
           \<exists>docs \<in> set (forEachEmbeddedDocument context sourceScript root).
             snd (snd (snd call)) = Some docs \<and> fst (snd call) = fst (snd docs))"
proof -
  let ?st = "collectResults context u sourceScript getRealDocParams eachVirtualDocParams
               worker transformResult combineResult"
  have st: "st = ?st"
    using run known by (simp add: languageFeatureWorker_def Let_def split: if_splits)
  have tr: "transformed st =
           map (\<lambda>call. (rawResult worker call, snd (snd (snd call))))
             (filter (\<lambda>call. truthy (rawResult worker call)) (invoked st))"
    unfolding st by (rule collectResults_transformed)
  have "results st = map (projection worker transformResult)
                       (filter (accepted worker transformResult) (invoked st))"
    unfolding st by (rule collectResults_results)
  also have "\<dots> = filter truthy (map (\<lambda>(raw, docs). transformResult raw docs)
                                   (transformed st))"
    unfolding tr by (rule accepted_by_stages)
  finally have res: "results st =
      filter truthy (map (\<lambda>(raw, docs). transformResult raw docs) (transformed st))" .
  have "prefix (invoked st)
          (map snd (candidateCalls context u sourceScript getRealDocParams
                      eachVirtualDocParams))"
    unfolding st by (rule collectResults_prefix)
  then have "set (invoked st)
          \<subseteq> snd ` set (candidateCalls context u sourceScript getRealDocParams
                        eachVirtualDocParams)"
    using set_mono_prefix by fastforce
  then have "\<forall>call \<in> set (invoked st).
           \<exists>docs \<in> set (forEachEmbeddedDocument context sourceScript root).
             snd (snd (snd call)) = Some docs \<and> fst (snd call) = fst (snd docs)"
    using tree by (fastforce simp: candidateCalls_def)
  with tr res show ?thesis by blast
qed

text \<open>
  Claim C9, as amended. When the map relates the offset of the generated position to
  exactly one source offset and that source offset back to exactly that one generated
  offset, and the source document converts that source offset to a position and back
  unchanged (as it does for an offset inside its text), then projecting the generated
  position with \<^verbatim>\<open>getSourcePositions\<close> and each resulting position with
  \<^verbatim>\<open>getGeneratedPositions\<close> yields exactly the position of the original generated offset.
\<close>

theorem position_round_trip_in_buffer:
  assumes to_source: "getSourceOffsets m (offsetAt embeddedDocument position)
                    (filterOrDefault accept) = [(sourceOffset, info)]"
    and to_generated: "getGeneratedOffsets m sourceOffset (filterOrDefault accept) =
                 [(offsetAt embeddedDocument position, info')]"
    and buffer: "offsetAt sourceDocument (positionAt sourceDocument sourceOffset) =
                   sourceOffset"
  shows "concat (map (\<lambda>sourcePosition.
             getGeneratedPositions (sourceDocument, embeddedDocument, m) sourcePosition accept)
           (getSourcePositions (sourceDocument, embeddedDocument, m) position accept)) =
         [positionAt embeddedDocument (offsetAt embeddedDocument position)]"
  using assms by (simp add: getSourcePositions_def getGeneratedPositions_def)

lemmas example_defs =
  exampleContext_def exampleSourceScript_def exampleRoot_def exampleScriptBlock_def
  exampleInner_def exampleStyle_def exampleEncode_def exampleUri_def

lemma example_known:
  "scripts_get exampleContext exampleUri = Some exampleSourceScript"
  by (simp add: exampleContext_def)

lemma example_generated: "generated exampleSourceScript = Some exampleRoot"
  by (simp add: exampleSourceScript_def)

lemma example_postOrder:
  "postOrder exampleRoot = [exampleInner, exampleScriptBlock, exampleStyle, exampleRoot]"
  by (simp add: exampleRoot_def exampleScriptBlock_def exampleInner_def exampleStyle_def)

lemma example_enabled:
  "isEnabledCode exampleContext exampleUri exampleInner"
  "\<not> isEnabledCode exampleContext exampleUri exampleScriptBlock"
  "isEnabledCode exampleContext exampleUri exampleStyle"
  "isEnabledCode exampleContext exampleUri exampleRoot"
  by (simp_all add: isEnabledCode_def isDisabledUri_def example_defs)

lemma example_walk:
  "forEachEmbeddedDocument exampleContext exampleSourceScript exampleRoot =
     [yieldedDocs exampleContext exampleSourceScript exampleInner,
      yieldedDocs exampleContext exampleSourceScript exampleStyle,
      yieldedDocs exampleContext exampleSourceScript exampleRoot]"
proof -
  have "script_id exampleSourceScript = exampleUri" by (simp add: exampleSourceScript_def)
  then show ?thesis
    by (simp add: forEach_postOrder example_postOrder example_enabled)
qed

lemma example_inner_docs:
  "yieldedDocs exampleContext exampleSourceScript exampleInner = innerDocs"
  by (simp add: yieldedDocs_def innerDocs_def example_defs)

lemma example_plugins:
  "enabledPlugins exampleContext = [(0, (''first'', 0)), (1, (''second'', 1))]"
  by (simp add: enabledPlugins_def exampleContext_def)

lemma example_run:
  "languageFeatureWorker exampleContext exampleUri noParams oneParams failThenAnswer
       keepResult None =
     (JObject 1,
      \<lparr>invoked = [((''first'', 0), fst (snd innerDocs), (), Some innerDocs),
                  ((''second'', 1), fst (snd innerDocs), (), Some innerDocs)],
       warned = [((''first'', 0, uri (fst (snd innerDocs))), ''failed'')],
       transformed = [(JObject 1, Some innerDocs)],
       results = [JObject 1]\<rparr>)"
  by (simp add: languageFeatureWorker_def example_known collectResults_runCalls
        candidateCalls_def example_generated example_walk example_inner_docs example_plugins
        oneParams_def recordCall_def rawResult_def accepted_def projection_def safeCall_def
        failThenAnswer_def keepResult_def emptyRun_def Let_def)

section \<open>The properties on the example inputs\<close>

theorem languageFeatureWorker_first_result_wins_witness:
  "scripts_get exampleContext exampleUri = Some exampleSourceScript
   \<and> accepted failThenAnswer keepResult
         ((''second'', 1), fst (snd innerDocs), (), Some innerDocs)
   \<and> \<not> accepted failThenAnswer keepResult
         ((''first'', 0), fst (snd innerDocs), (), Some innerDocs)
   \<and> fst (languageFeatureWorker exampleContext exampleUri noParams oneParams failThenAnswer
             keepResult None) = JObject 1"
proof -
  let ?first = "((''first'', 0), fst (snd innerDocs), (), Some innerDocs)"
  let ?second = "((''second'', 1), fst (snd innerDocs), (), Some innerDocs)"
  let ?st = "snd (languageFeatureWorker exampleContext exampleUri noParams oneParams
                    failThenAnswer keepResult None)"
  have trace: "invoked ?st = [?first] @ ?second # []"
    by (simp add: example_run)
  have acc: "accepted failThenAnswer keepResult ?second"
    by (simp add: accepted_def projection_def rawResult_def safeCall_def failThenAnswer_def
          keepResult_def)
  have run: "languageFeatureWorker exampleContext exampleUri noParams oneParams failThenAnswer
               keepResult None =
             (fst (languageFeatureWorker exampleContext exampleUri noParams oneParams
                     failThenAnswer keepResult None), ?st)"
    by simp
  note wins = languageFeatureWorker_first_result_wins [OF example_known run trace acc]
  have earlier: "\<not> accepted failThenAnswer keepResult ?first"
    using wins by simp
  have "fst (languageFeatureWorker exampleContext exampleUri noParams oneParams
               failThenAnswer keepResult None) =
          projection failThenAnswer keepResult ?second"
    using wins by blast
  also have "\<dots> = JObject 1"
    by (simp add: projection_def rawResult_def safeCall_def failThenAnswer_def
          keepResult_def)
  finally show ?thesis using example_known acc earlier by simp
qed

theorem forEachEmbeddedDocument_post_order_witness:
  "map (\<lambda>docs. uri (fst (snd docs)))
     (forEachEmbeddedDocument exampleContext exampleSourceScript exampleRoot) =
   [''file:///a.vue#inner'', ''file:///a.vue#style'', ''file:///a.vue#root'']"
proof -
  have sid: "script_id exampleSourceScript = exampleUri"
    by (simp add: exampleSourceScript_def)
  have "forEachEmbeddedDocument exampleContext exampleSourceScript exampleRoot =
          map (yieldedDocs exampleContext exampleSourceScript)
            (filter (isEnabledCode exampleContext (script_id exampleSourceScript))
               (postOrder exampleRoot))"
    using forEachEmbeddedDocument_post_order
            [of exampleContext exampleSourceScript exampleRoot]
    by (rule conjunct2)
  then have "forEachEmbeddedDocument exampleContext exampleSourceScript exampleRoot =
          [yieldedDocs exampleContext exampleSourceScript exampleInner,
           yieldedDocs exampleContext exampleSourceScript exampleStyle,
           yieldedDocs exampleContext exampleSourceScript exampleRoot]"
    by (simp add: sid example_postOrder example_enabled)
  then show ?thesis
    by (simp add: yieldedDocs_def lineDocument_def example_defs)
qed

theorem forEachEmbeddedDocument_disabled_node_witness:
  "exampleScriptBlock \<in> set (postOrder exampleRoot)
   \<and> isDisabledUri exampleContext
         (encodeEmbeddedDocumentUri exampleContext (script_id exampleSourceScript)
            (code_id exampleScriptBlock))
   \<and> forEachEmbeddedDocument exampleContext exampleSourceScript exampleScriptBlock =
         forEachEmbeddedDocument exampleContext exampleSourceScript exampleInner
   \<and> yieldedDocs exampleContext exampleSourceScript exampleInner
         \<in> set (forEachEmbeddedDocument exampleContext exampleSourceScript exampleRoot)"
proof -
  have node: "exampleScriptBlock \<in> set (postOrder exampleRoot)"
    by (simp add: example_postOrder)
  have off: "isDisabledUri exampleContext
         (encodeEmbeddedDocumentUri exampleContext (script_id exampleSourceScript)
            (code_id exampleScriptBlock))"
    by (simp add: isDisabledUri_def example_defs)
  have kids: "children exampleScriptBlock = [exampleInner]"
    by (simp add: children_def exampleScriptBlock_def)
  have below: "exampleInner \<in> set (postOrder exampleScriptBlock)"
    by (simp add: exampleScriptBlock_def exampleInner_def)
  have on: "isEnabledCode exampleContext (script_id exampleSourceScript) exampleInner"
    using example_enabled(1) by (simp add: exampleSourceScript_def)
  note skipped = forEachEmbeddedDocument_disabled_node [OF node off]
  have "forEachEmbeddedDocument exampleContext exampleSourceScript exampleScriptBlock =
          concat (map (forEachEmbeddedDocument exampleContext exampleSourceScript)
                    (children exampleScriptBlock))"
    using skipped by (rule conjunct1)
  then have own: "forEachEmbeddedDocument exampleContext exampleSourceScript
                    exampleScriptBlock =
                  forEachEmbeddedDocument exampleContext exampleSourceScript exampleInner"
    by (simp only: kids list.map concat.simps append_Nil2)
  have "\<forall>descendant \<in> set (postOrder exampleScriptBlock).
           isEnabledCode exampleContext (script_id exampleSourceScript) descendant \<longrightarrow>
           yieldedDocs exampleContext exampleSourceScript descendant
             \<in> set (forEachEmbeddedDocument exampleContext exampleSourceScript exampleRoot)"
    using skipped by blast
  then have "yieldedDocs exampleContext exampleSourceScript exampleInner
               \<in> set (forEachEmbeddedDocument exampleContext exampleSourceScript exampleRoot)"
    using below on by blast
  with node off own show ?thesis by blast
qed

theorem forEachEmbeddedDocument_documents_witness:
  "innerDocs \<in> set (forEachEmbeddedDocument exampleContext exampleSourceScript exampleRoot)
   \<and> (\<exists>current \<in> set (postOrder exampleRoot).
         innerDocs =
           (documents_get exampleContext (script_id exampleSourceScript)
              (code_languageId current) (code_snapshot current),
            documents_get exampleContext
              (encodeEmbeddedDocumentUri exampleContext (script_id exampleSourceScript)
                 (code_id current))
              (code_languageId current) (code_snapshot current),
            maps_get exampleContext current exampleSourceScript))
   \<and> doc_languageId (fst innerDocs) = code_languageId exampleInner
   \<and> doc_languageId (fst innerDocs) \<noteq> script_languageId exampleSourceScript"
proof -
  have member:
    "innerDocs \<in> set (forEachEmbeddedDocument exampleContext exampleSourceScript exampleRoot)"
    by (simp add: example_walk example_inner_docs)
  have lang: "doc_languageId (fst innerDocs) = code_languageId exampleInner
              \<and> doc_languageId (fst innerDocs) \<noteq> script_languageId exampleSourceScript"
    by (simp add: innerDocs_def lineDocument_def exampleInner_def exampleSourceScript_def)
  from forEachEmbeddedDocument_documents
         [of exampleContext exampleSourceScript exampleRoot] member lang
  show ?thesis by blast
qed

theorem getEmbeddedFilesByLevel_levels_witness:
  "(0::int) < 1
   \<and> getEmbeddedFilesByLevel exampleContext exampleUri exampleRoot 0 = Some [exampleRoot]
   \<and> getEmbeddedFilesByLevel exampleContext exampleUri exampleRoot 1 = Some [exampleStyle]"
proof -
  have kids: "children exampleRoot = [exampleScriptBlock, exampleStyle]"
    by (simp add: children_def exampleRoot_def)
  note levels = getEmbeddedFilesByLevel_levels [of exampleContext exampleUri exampleRoot]
  have zero: "getEmbeddedFilesByLevel exampleContext exampleUri exampleRoot 0 =
                Some [exampleRoot]"
    using levels by (rule conjunct1)
  have "\<exists>previous.
      getEmbeddedFilesByLevel exampleContext exampleUri exampleRoot (1 - 1) = Some previous \<and>
      getEmbeddedFilesByLevel exampleContext exampleUri exampleRoot 1 =
        Some (concat (map (\<lambda>node. filter (isEnabledCode exampleContext exampleUri)
                                    (children node)) previous))"
    using conjunct2 [OF levels, rule_format, of 1] by simp
  then have "getEmbeddedFilesByLevel exampleContext exampleUri exampleRoot 1 =
               Some [exampleStyle]"
    using zero by (auto simp: kids example_enabled)
  with zero show ?thesis by simp
qed

theorem languageFeatureWorker_unknown_uri_witness:
  "scripts_get exampleContext ''file:///b.vue'' = None
   \<and> languageFeatureWorker exampleContext ''file:///b.vue'' noParams oneParams failThenAnswer
         keepResult None =
       (JUndefined, \<lparr>invoked = [], warned = [], transformed = [], results = []\<rparr>)"
proof -
  have unknown: "scripts_get exampleContext ''file:///b.vue'' = None"
    by (simp add: exampleContext_def exampleUri_def)
  have "languageFeatureWorker exampleContext ''file:///b.vue'' noParams oneParams
          failThenAnswer keepResult None =
        (JUndefined, \<lparr>invoked = [], warned = [], transformed = [], results = []\<rparr>)"
    by (rule conjunct1 [OF languageFeatureWorker_unknown_uri [OF unknown]])
  with unknown show ?thesis by simp
qed

theorem languageFeatureWorker_isolates_failures_witness:
  "failThenAnswer (''first'', 0) (fst (snd innerDocs)) () (Some innerDocs) = Throws ''failed''
   \<and> fst (languageFeatureWorker exampleContext exampleUri noParams oneParams
             (withoutFailures failThenAnswer) keepResult None) = JObject 1
   \<and> fst (languageFeatureWorker exampleContext exampleUri noParams oneParams
             failThenAnswer keepResult None) = JObject 1"
  using languageFeatureWorker_isolates_failures
          [of exampleContext exampleUri noParams oneParams failThenAnswer keepResult None]
  by (simp add: example_run failThenAnswer_def)

theorem languageFeatureWorker_return_value_witness:
  "fst (languageFeatureWorker exampleContext exampleUri noParams oneParams failThenAnswer
          keepResult None) = JObject 1"
  using languageFeatureWorker_return_value
          [of exampleContext exampleUri noParams oneParams failThenAnswer keepResult None]
  by (simp add: example_run)

theorem languageFeatureWorker_projects_truthy_results_witness:
  "scripts_get exampleContext exampleUri = Some exampleSourceScript
   \<and> generated exampleSourceScript = Some exampleRoot
   \<and> transformed (snd (languageFeatureWorker exampleContext exampleUri noParams oneParams
                          failThenAnswer keepResult None)) = [(JObject 1, Some innerDocs)]
   \<and> results (snd (languageFeatureWorker exampleContext exampleUri noParams oneParams
                      failThenAnswer keepResult None)) =
       filter truthy (map (\<lambda>(raw, docs). keepResult raw docs) [(JObject 1, Some innerDocs)])"
proof -
  let ?run = "languageFeatureWorker exampleContext exampleUri noParams oneParams
                failThenAnswer keepResult None"
  have run: "?run = (fst ?run, snd ?run)" by simp
  have tr: "transformed (snd ?run) = [(JObject 1, Some innerDocs)]"
    by (simp add: example_run)
  note stages = languageFeatureWorker_projects_truthy_results
                  [OF example_known example_generated run]
  have "results (snd ?run) =
          filter truthy (map (\<lambda>(raw, docs). keepResult raw docs) (transformed (snd ?run)))"
    using stages by blast
  then have "results (snd ?run) =
          filter truthy (map (\<lambda>(raw, docs). keepResult raw docs)
                           [(JObject 1, Some innerDocs)])"
    by (simp only: tr)
  with example_known example_generated tr show ?thesis by blast
qed

text \<open>
  Claim C4 as stated fails for a result that is falsy without being \<^verbatim>\<open>null\<close> or
  \<^verbatim>\<open>undefined\<close>. Every plugin answers the empty string and the projection would answer an
  object for it; the dispatcher calls the worker six times, never calls the projection,
  accumulates nothing and returns \<^verbatim>\<open>undefined\<close>.
\<close>

theorem languageFeatureWorker_empty_string_counterexample:
  "map (rawResult answerEmptyString)
     (invoked (snd (languageFeatureWorker exampleContext exampleUri noParams oneParams
                      answerEmptyString fixedObject None))) =
     [JString [], JString [], JString [], JString [], JString [], JString []]
   \<and> JString [] \<noteq> JNull \<and> JString [] \<noteq> JUndefined
   \<and> fixedObject (JString []) (Some innerDocs) = JObject 7
   \<and> transformed (snd (languageFeatureWorker exampleContext exampleUri noParams oneParams
                          answerEmptyString fixedObject None)) = []
   \<and> results (snd (languageFeatureWorker exampleContext exampleUri noParams oneParams
                      answerEmptyString fixedObject None)) = []
   \<and> fst (languageFeatureWorker exampleContext exampleUri noParams oneParams
             answerEmptyString fixedObject None) = JUndefined"
  by (simp add: languageFeatureWorker_def example_known collectResults_runCalls
        candidateCalls_def example_generated example_walk example_plugins
        oneParams_def recordCall_def rawResult_def accepted_def projection_def safeCall_def
        answerEmptyString_def fixedObject_def emptyRun_def Let_def)

theorem position_round_trip_in_buffer_witness:
  "getSourceOffsets (shiftMap 8 2)
     (offsetAt (lineDocument (exampleEncode exampleUri ''inner'') ''json'' ''ab'')
        \<lparr>line = 0, character = 1\<rparr>) (filterOrDefault None) = [(9, ())]
   \<and> getGeneratedOffsets (shiftMap 8 2) 9 (filterOrDefault None) =
       [(offsetAt (lineDocument (exampleEncode exampleUri ''inner'') ''json'' ''ab'')
           \<lparr>line = 0, character = 1\<rparr>, ())]
   \<and> offsetAt (lineDocument exampleUri ''vue'' ''<script>ab</script>'')
       (positionAt (lineDocument exampleUri ''vue'' ''<script>ab</script>'') 9) = 9
   \<and> concat (map (\<lambda>sourcePosition. getGeneratedPositions innerDocsOverSource sourcePosition None)
        (getSourcePositions innerDocsOverSource \<lparr>line = 0, character = 1\<rparr> None)) =
       [\<lparr>line = 0, character = 1\<rparr>]"
proof -
  let ?emb = "lineDocument (exampleEncode exampleUri ''inner'') ''json'' ''ab''"
  let ?src = "lineDocument exampleUri ''vue'' ''<script>ab</script>''"
  have h1: "getSourceOffsets (shiftMap 8 2) (offsetAt ?emb \<lparr>line = 0, character = 1\<rparr>)
              (filterOrDefault None) = [(9, ())]"
    by (simp add: shiftMap_def lineDocument_def filterOrDefault_def)
  have h2: "getGeneratedOffsets (shiftMap 8 2) 9 (filterOrDefault None) =
              [(offsetAt ?emb \<lparr>line = 0, character = 1\<rparr>, ())]"
    by (simp add: shiftMap_def lineDocument_def filterOrDefault_def)
  have h3: "offsetAt ?src (positionAt ?src 9) = 9"
    by (simp add: lineDocument_def)
  from position_round_trip_in_buffer [OF h1 h2 h3]
  show ?thesis using h1 h2 h3 by (simp add: innerDocsOverSource_def lineDocument_def)
qed

text \<open>
  Claim C9 as stated fails when the source document does not hold the source offset. The
  first tuple the walker yields for the example has a source document made from the
  snapshot of the inner block, which is two characters long, while the map relates the
  generated offset 1 to the source offset 9 and back, one to one. The source document
  clamps offset 9 to the position of offset 2, and projecting that position back yields
  nothing.
\<close>

theorem position_round_trip_counterexample:
  "hd (forEachEmbeddedDocument exampleContext exampleSourceScript exampleRoot) = innerDocs
   \<and> offsetAt (fst (snd innerDocs)) \<lparr>line = 0, character = 1\<rparr> = 1
   \<and> getSourceOffsets (snd (snd innerDocs)) 1 (filterOrDefault None) = [(9, ())]
   \<and> getGeneratedOffsets (snd (snd innerDocs)) 9 (filterOrDefault None) = [(1, ())]
   \<and> getSourcePositions innerDocs \<lparr>line = 0, character = 1\<rparr> None =
       [\<lparr>line = 0, character = 2\<rparr>]
   \<and> getGeneratedPositions innerDocs \<lparr>line = 0, character = 2\<rparr> None = []"
  by (simp add: example_walk example_inner_docs)
     (simp add: innerDocs_def getSourcePositions_def getGeneratedPositions_def
        shiftMap_def lineDocument_def filterOrDefault_def)

end
